theory Spec2Isabelle
  imports Complex_Main "HOL-Library.Char_ord" "HOL-Library.List_Lexorder" "HOL-Library.Product_Lexorder"
begin

section \<open>Draining OCR results in \<open>main_live\<close>\<close>

text \<open>
  The capture loop of \<open>arc_companion.py\<close> (\<open>main_live\<close>) empties the result queue on
  every tick.  A panel box is the tuple \<open>(x1, y1, x2, y2)\<close>.  A result is the dictionary the
  worker puts on \<open>ocr_result_queue\<close>; its keys \<open>task_id\<close>, \<open>name\<close>, \<open>row\<close>,
  \<open>panel_box\<close>, \<open>secondary_used\<close> and \<open>error\<close> are the fields below (prefixed
  \<open>res_\<close>).  The state is the part of the loop's locals and module globals the drain loop
  reads or writes.
\<close>

type_synonym box = "int \<times> int \<times> int \<times> int"

record 'row ocr_result =
  res_task_id :: int
  res_name :: "string option"
  res_row :: "'row option"
  res_panel_box :: "box option"
  res_secondary_used :: bool
  res_error :: "string option"

record 'row live_state =
  latest_result_id :: int
  last_name :: "string option"
  last_row :: "'row option"
  last_used_secondary :: bool
  LAST_SHOWN_ROW :: "'row option"
  LAST_SHOWN_PANEL_BOX :: "box option"
  TOOLTIP_ROOT :: bool
  TOOLTIP_VISIBLE :: bool
  HELPER_SCREEN_RECT :: "box option"

text \<open>\<open>hide_helper_tooltip\<close>: withdraw the window when it exists and is visible, and
  forget the overlay rectangle.  \<open>TOOLTIP_ROOT\<close> records whether the window exists.\<close>

definition hide_helper_tooltip :: "'row live_state \<Rightarrow> 'row live_state" where
  "hide_helper_tooltip s =
     s\<lparr>TOOLTIP_VISIBLE := (if TOOLTIP_ROOT s \<and> TOOLTIP_VISIBLE s then False else TOOLTIP_VISIBLE s),
       HELPER_SCREEN_RECT := None\<rparr>"

text \<open>Python truthiness of an optional string: \<open>None\<close> and \<open>""\<close> are false.\<close>

definition truthy :: "string option \<Rightarrow> bool" where
  "truthy v = (case v of None \<Rightarrow> False | Some t \<Rightarrow> t \<noteq> [])"

text \<open>
  One iteration of the inner \<open>while True\<close> loop, for the result \<open>res\<close> that
  \<open>get_nowait\<close> returned:
  \<^verbatim>\<open>
      if rid < latest_result_id: continue
      latest_result_id = rid
      if not tooltip_active: continue
      if err: ...; continue
      if name and row is not None: last_name = name; last_row = row; ...
      else: last_name = None; last_row = None; ...; hide_helper_tooltip(); ...
  \<close>
\<close>

definition drain_one :: "bool \<Rightarrow> 'row live_state \<Rightarrow> 'row ocr_result \<Rightarrow> 'row live_state" where
  "drain_one tooltip_active s res =
     (if res_task_id res < latest_result_id s then s
      else
        let s1 = s\<lparr>latest_result_id := res_task_id res\<rparr> in
        if \<not> tooltip_active then s1
        else if truthy (res_error res) then s1
        else if truthy (res_name res) \<and> res_row res \<noteq> None then
          s1\<lparr>last_name := res_name res, last_row := res_row res,
             last_used_secondary := res_secondary_used res\<rparr>
        else
          (hide_helper_tooltip
             (s1\<lparr>last_name := None, last_row := None, last_used_secondary := False\<rparr>))
            \<lparr>LAST_SHOWN_ROW := None, LAST_SHOWN_PANEL_BOX := None\<rparr>)"

text \<open>The whole drain loop: the queue's content is taken in arrival order until
  \<open>queue.Empty\<close>.\<close>

fun drain :: "bool \<Rightarrow> 'row live_state \<Rightarrow> 'row ocr_result list \<Rightarrow> 'row live_state" where
  "drain tooltip_active s [] = s"
| "drain tooltip_active s (res # q) = drain tooltip_active (drain_one tooltip_active s res) q"

text \<open>The state \<open>main_live\<close> starts from: \<open>latest_result_id = -1\<close>, nothing shown.\<close>

definition initial_live_state :: "'row live_state" where
  "initial_live_state =
     \<lparr>latest_result_id = - 1, last_name = None, last_row = None, last_used_secondary = False,
      LAST_SHOWN_ROW = None, LAST_SHOWN_PANEL_BOX = None, TOOLTIP_ROOT = False,
      TOOLTIP_VISIBLE = False, HELPER_SCREEN_RECT = None\<rparr>"

section \<open>Name normalisation (\<open>normalize_name_for_match\<close>)\<close>

text \<open>
  Python strings are modelled as \<open>string\<close>, a list of 8-bit characters; a character stands
  for the code point of the same number, so the model covers every \<open>str\<close> whose code points
  are below 256 (ASCII and Latin-1; the OCR whitelist of \<open>init_ocr\<close> only emits ASCII letters,
  digits and the space).  \<open>ord\<close> is Python's \<open>ord\<close>.  The character classes are CPython's
  for these code points: \<open>is_space\<close> is \<open>str.isspace\<close> (used by \<open>strip\<close>, \<open>split\<close> and
  the pattern \<open>\s\<close>), \<open>is_digit\<close> is the pattern \<open>\d\<close>, \<open>is_word\<close> is the pattern
  \<open>\w\<close> (alphanumeric or underscore) that decides the word boundary \<open>\b\<close>, and
  \<open>lower_char\<close> is \<open>str.lower\<close> on one character.
\<close>

definition ord :: "char \<Rightarrow> nat" where
  "ord c = of_char c"

definition is_space :: "char \<Rightarrow> bool" where
  "is_space c = (let n = ord c in (9 \<le> n \<and> n \<le> 13) \<or> (28 \<le> n \<and> n \<le> 32) \<or> n = 133 \<or> n = 160)"

definition is_digit :: "char \<Rightarrow> bool" where
  "is_digit c = (let n = ord c in 48 \<le> n \<and> n \<le> 57)"

definition is_word :: "char \<Rightarrow> bool" where
  "is_word c = (let n = ord c in
      (48 \<le> n \<and> n \<le> 57) \<or> (65 \<le> n \<and> n \<le> 90) \<or> n = 95 \<or> (97 \<le> n \<and> n \<le> 122)
      \<or> n = 170 \<or> n = 178 \<or> n = 179 \<or> n = 181 \<or> n = 185 \<or> n = 186
      \<or> (188 \<le> n \<and> n \<le> 190) \<or> (192 \<le> n \<and> n \<le> 214) \<or> (216 \<le> n \<and> n \<le> 246)
      \<or> (248 \<le> n \<and> n \<le> 255))"

definition lower_char :: "char \<Rightarrow> char" where
  "lower_char c = (let n = ord c in
      if (65 \<le> n \<and> n \<le> 90) \<or> (192 \<le> n \<and> n \<le> 214) \<or> (216 \<le> n \<and> n \<le> 222)
      then char_of (n + 32) else c)"

text \<open>\<open>str.upper\<close> is only applied to the matched token, whose characters are ASCII letters of
  the class \<open>[IVXLCDM]\<close> or digits; \<open>upper_ascii\<close> is \<open>str.upper\<close> on those.\<close>

definition upper_ascii :: "char \<Rightarrow> char" where
  "upper_ascii c = (let n = ord c in if 97 \<le> n \<and> n \<le> 122 then char_of (n - 32) else c)"

text \<open>The class \<open>[IVXLCDM]\<close> under \<open>re.IGNORECASE\<close>.\<close>

definition is_roman_letter :: "char \<Rightarrow> bool" where
  "is_roman_letter c = (upper_ascii c \<in> set ''IVXLCDM'')"

definition strip :: "string \<Rightarrow> string" where
  "strip s = rev (dropWhile is_space (rev (dropWhile is_space s)))"

text \<open>
  \<^verbatim>\<open>m = re.search(r"(\b[IVXLCDM]+\b|\b\d+\b)$", s, re.IGNORECASE)\<close>.
  A match starts at a word boundary and runs to the end of the string through characters of
  the class, or through digits.  All of these are word characters, so the character before
  the match is not one (or there is none): the match begins where the last maximal run of
  word characters of \<open>s\<close> begins, and exists exactly when that run, \<open>last_word s\<close>, is not
  empty and consists of class letters only or of digits only.  (\<open>s\<close> is stripped, so the
  end of the string is the only place where \<open>$\<close> holds.)  \<open>trailing_token s\<close> is
  \<open>m.group(1)\<close>, and \<open>m.start(1)\<close> is \<open>length s - length token\<close>.
\<close>

definition last_word :: "string \<Rightarrow> string" where
  "last_word s = rev (takeWhile is_word (rev s))"

definition trailing_token :: "string \<Rightarrow> string option" where
  "trailing_token s =
     (let w = last_word s in
      if w \<noteq> [] \<and> (list_all is_roman_letter w \<or> list_all is_digit w) then Some w else None)"

text \<open>\<^verbatim>\<open>token_clean = token.upper().replace("|", "I").replace("L", "I")\<close>\<close>

definition token_clean :: "string \<Rightarrow> string" where
  "token_clean token =
     map (\<lambda>c. if c = CHR ''|'' \<or> c = CHR ''L'' then CHR ''I'' else c) (map upper_ascii token)"

definition roman_map :: "string \<Rightarrow> string option" where
  "roman_map = map_of [(''I'', ''1''), (''II'', ''2''), (''III'', ''3''), (''IV'', ''4'')]"

text \<open>The variable \<open>digit\<close>: the entry of \<open>roman_map\<close>, else the token itself when
  \<open>token_clean.isdigit()\<close>, else \<open>None\<close>.\<close>

definition numeral_digit :: "string \<Rightarrow> string option" where
  "numeral_digit token =
     (let tc = token_clean token in
      case roman_map tc of
        Some d \<Rightarrow> Some d
      | None \<Rightarrow> if tc \<noteq> [] \<and> list_all is_digit tc then Some tc else None)"

text \<open>The block \<open>if s: m = ...; if m: ...; if digit is not None: s = s[:m.start(1)] + digit\<close>.\<close>

definition rewrite_trailing_numeral :: "string \<Rightarrow> string" where
  "rewrite_trailing_numeral s =
     (case trailing_token s of
        None \<Rightarrow> s
      | Some token \<Rightarrow>
          (case numeral_digit token of
             None \<Rightarrow> s
           | Some digit \<Rightarrow> take (length s - length token) s @ digit))"

text \<open>The two translation tables of \<open>str.maketrans\<close>.\<close>

definition trans_short :: "char \<Rightarrow> char" where
  "trans_short c = (if c = CHR ''0'' then CHR ''o'' else c)"

definition trans_long :: "char \<Rightarrow> char" where
  "trans_long c =
     (if c = CHR ''I'' \<or> c = CHR ''|'' \<or> c = CHR ''1'' then CHR ''l''
      else if c = CHR ''0'' then CHR ''o'' else c)"

text \<open>\<^verbatim>\<open>re.sub(r"\s+", " ", s)\<close>: every maximal run of whitespace becomes one space.
  \<open>in_run\<close> tells that the previous character was whitespace.\<close>

fun collapse_from :: "bool \<Rightarrow> string \<Rightarrow> string" where
  "collapse_from in_run [] = []"
| "collapse_from in_run (c # cs) =
     (if is_space c then (if in_run then collapse_from True cs else CHR '' '' # collapse_from True cs)
      else c # collapse_from False cs)"

definition collapse_ws :: "string \<Rightarrow> string" where
  "collapse_ws s = collapse_from False s"

text \<open>
  \<open>normalize_name_for_match\<close>: strip, rewrite the trailing numeral, measure the core
  (\<^verbatim>\<open>re.sub(r"\s+", "", s)\<close>), translate with the table the core's length selects,
  lower-case, collapse whitespace.
\<close>

definition normalize_name_for_match :: "string \<Rightarrow> string" where
  "normalize_name_for_match name =
     (let s = rewrite_trailing_numeral (strip name);
          core = filter (\<lambda>c. \<not> is_space c) s;
          trans = (if length core \<le> 3 then trans_short else trans_long)
      in collapse_ws (map lower_char (map trans s)))"

section \<open>The item table (\<open>build_item_lookup\<close>)\<close>

text \<open>
  A database row is a dictionary from column names to strings (\<open>csv.DictReader\<close>), here an
  association list read with \<open>map_of\<close>.  \<open>ITEM_LOOKUP\<close> and \<open>ITEM_ORDER\<close> are Python
  dictionaries; their key order (insertion order, kept when a key is assigned again) decides
  ties further down, so a dictionary is an association list in insertion order and
  \<open>dict_set\<close> is the assignment \<open>d[k] = v\<close>.
\<close>

type_synonym row = "(string \<times> string) list"

type_synonym 'v dict = "(string \<times> 'v) list"

definition row_get :: "row \<Rightarrow> string \<Rightarrow> string \<Rightarrow> string" where
  "row_get r k dflt = (case map_of r k of None \<Rightarrow> dflt | Some v \<Rightarrow> v)"

fun dict_set :: "'v dict \<Rightarrow> string \<Rightarrow> 'v \<Rightarrow> 'v dict" where
  "dict_set [] k v = [(k, v)]"
| "dict_set ((k', v') # d) k v = (if k' = k then (k, v) # d else (k', v') # dict_set d k v)"

definition dict_keys :: "'v dict \<Rightarrow> string list" where
  "dict_keys d = map fst d"

text \<open>
  The body of the loop \<open>for idx, row in enumerate(arc_raider_item_names)\<close>, on the pair
  \<open>(ITEM_LOOKUP, ITEM_ORDER)\<close>, and the loop itself from two empty dictionaries.
\<close>

definition build_step :: "nat \<times> row \<Rightarrow> row dict \<times> nat dict \<Rightarrow> row dict \<times> nat dict" where
  "build_step ir tabs =
     (let name = strip (row_get (snd ir) ''Name'' '''') in
      if name = [] then tabs
      else
        let nrm = normalize_name_for_match name in
        (dict_set (fst tabs) nrm (snd ir),
         if nrm \<in> set (dict_keys (snd tabs)) then snd tabs else dict_set (snd tabs) nrm (fst ir)))"

definition build_item_lookup :: "row list \<Rightarrow> row dict \<times> nat dict" where
  "build_item_lookup arc_raider_item_names = fold build_step (enumerate 0 arc_raider_item_names) ([], [])"

definition ITEM_LOOKUP :: "row list \<Rightarrow> row dict" where
  "ITEM_LOOKUP rows = fst (build_item_lookup rows)"

definition ITEM_ORDER :: "row list \<Rightarrow> nat dict" where
  "ITEM_ORDER rows = snd (build_item_lookup rows)"

text \<open>
  To state what the loop builds: \<open>row_key r\<close> is the key under which the loop files the row
  \<open>r\<close> (\<open>None\<close> when the stripped name is empty and the row is skipped), and
  \<open>indices_of_key rows k\<close> are the positions, in database order, of the rows filed under
  \<open>k\<close>.
\<close>

definition row_key :: "row \<Rightarrow> string option" where
  "row_key r =
     (let name = strip (row_get r ''Name'' '''') in
      if name = [] then None else Some (normalize_name_for_match name))"

definition indices_of_key :: "row list \<Rightarrow> string \<Rightarrow> nat list" where
  "indices_of_key rows k = filter (\<lambda>i. row_key (rows ! i) = Some k) [0..<length rows]"

section \<open>Name resolution (\<open>find_item_row_by_name\<close>)\<close>

text \<open>
  \<open>difflib\<close> is library code.  The three scores of a \<open>SequenceMatcher(None, a, b)\<close> are
  parameters of the model: \<open>sm_ratio m a b\<close> is \<open>ratio()\<close>, \<open>sm_quick_ratio m a b\<close> is
  \<open>quick_ratio()\<close> and \<open>sm_real_quick_ratio m a b\<close> is \<open>real_quick_ratio()\<close>.  A score is
  the float \<open>2.0 * matches / length\<close>; it is modelled by the rational number it rounds, and
  the comparisons with the literals \<open>0.6\<close> and \<open>0.70\<close> by comparisons with \<open>6/10\<close> and
  \<open>7/10\<close> (the two agree as long as the strings are shorter than about \<open>10^15\<close>
  characters, where a quotient of small integers cannot round across the literal).
\<close>

record matcher =
  sm_ratio :: "string \<Rightarrow> string \<Rightarrow> rat"
  sm_quick_ratio :: "string \<Rightarrow> string \<Rightarrow> rat"
  sm_real_quick_ratio :: "string \<Rightarrow> string \<Rightarrow> rat"

text \<open>\<open>norm.split()\<close>: the maximal runs of non-whitespace characters.\<close>

fun split_from :: "string \<Rightarrow> string \<Rightarrow> string list" where
  "split_from cur [] = (if cur = [] then [] else [cur])"
| "split_from cur (c # cs) =
     (if is_space c then (if cur = [] then split_from [] cs else cur # split_from [] cs)
      else split_from (cur @ [c]) cs)"

definition split_ws :: "string \<Rightarrow> string list" where
  "split_ws s = split_from [] s"

text \<open>\<open>t in k\<close> on strings: \<open>t\<close> occurs in \<open>k\<close> as a contiguous substring.\<close>

fun is_in :: "string \<Rightarrow> string \<Rightarrow> bool" where
  "is_in t [] = (t = [])"
| "is_in t (c # cs) = (take (length t) (c # cs) = t \<or> is_in t cs)"

text \<open>\<open>max(xs, key=f)\<close> on a non-empty list: the first element whose key is maximal.\<close>

fun max_from :: "('a \<Rightarrow> rat) \<Rightarrow> 'a \<Rightarrow> 'a list \<Rightarrow> 'a" where
  "max_from f best [] = best"
| "max_from f best (x # xs) = max_from f (if f best < f x then x else best) xs"

definition py_max :: "('a \<Rightarrow> rat) \<Rightarrow> 'a list \<Rightarrow> 'a" where
  "py_max f xs = max_from f (hd xs) (tl xs)"

text \<open>
  \<open>difflib.get_close_matches(word, possibilities, n, cutoff)\<close> for \<open>n > 0\<close> and a cutoff in
  \<open>[0, 1]\<close> (the call site passes \<open>n=1, cutoff=0.70\<close>): each possibility \<open>x\<close> is scored by
  \<open>SequenceMatcher\<close> with \<open>x\<close> as first and \<open>word\<close> as second sequence, kept when its three
  scores reach the cutoff, and \<open>heapq.nlargest(n, result)\<close> returns the \<open>n\<close> greatest pairs
  \<open>(score, x)\<close> in descending order, pairs being compared by score and then by string.
\<close>

definition get_close_matches :: "matcher \<Rightarrow> string \<Rightarrow> string list \<Rightarrow> nat \<Rightarrow> rat \<Rightarrow> string list" where
  "get_close_matches m word possibilities n cutoff =
     (let result = map (\<lambda>x. (sm_ratio m x word, x))
            (filter (\<lambda>x. cutoff \<le> sm_real_quick_ratio m x word \<and> cutoff \<le> sm_quick_ratio m x word
                         \<and> cutoff \<le> sm_ratio m x word) possibilities)
      in map snd (take n (rev (sort result))))"

text \<open>The three comprehensions of \<open>find_item_row_by_name\<close>:
  \<^verbatim>\<open>tokens = [t for t in norm.split() if len(t) >= 3]\<close>,
  \<^verbatim>\<open>strict_candidates = [k for k in keys if all(t in k for t in tokens)]\<close> and
  \<^verbatim>\<open>partial_candidates = [k for k in keys if norm in k or k in norm]\<close>.\<close>

definition query_tokens :: "string \<Rightarrow> string list" where
  "query_tokens nrm = filter (\<lambda>t. 3 \<le> length t) (split_ws nrm)"

definition strict_candidates :: "string list \<Rightarrow> string list \<Rightarrow> string list" where
  "strict_candidates keys tokens = filter (\<lambda>k. list_all (\<lambda>t. is_in t k) tokens) keys"

definition partial_candidates :: "string list \<Rightarrow> string \<Rightarrow> string list" where
  "partial_candidates keys nrm = filter (\<lambda>k. is_in nrm k \<or> is_in k nrm) keys"

text \<open>
  \<open>find_item_row_by_name\<close>, on the table \<open>lookup\<close> (the global \<open>ITEM_LOOKUP\<close>).  The result
  is \<open>None\<close> or the row \<open>ITEM_LOOKUP[key]\<close> of a key of the table.  The source's variable
  \<open>norm\<close> is \<open>nrm\<close> here and in \<open>build_step\<close>.
\<close>

definition find_item_row_by_name :: "matcher \<Rightarrow> 'v dict \<Rightarrow> string \<Rightarrow> 'v option" where
  "find_item_row_by_name m lookup name =
     (if name = [] \<or> lookup = [] then None
      else
        let nrm = normalize_name_for_match name;
            keys = dict_keys lookup
        in
        if nrm \<in> set keys then map_of lookup nrm
        else
          let tokens = query_tokens nrm;
              strict = strict_candidates keys tokens;
              strict_key = py_max (sm_ratio m nrm) strict
          in
          if tokens \<noteq> [] \<and> strict \<noteq> [] \<and> 6 / 10 \<le> sm_ratio m nrm strict_key
          then map_of lookup strict_key
          else
            let partial = partial_candidates keys nrm;
                partial_key = py_max (sm_ratio m nrm) partial
            in
            if partial \<noteq> [] \<and> 7 / 10 \<le> sm_ratio m nrm partial_key
            then map_of lookup partial_key
            else
              (case get_close_matches m nrm keys 1 (7 / 10) of
                 [] \<Rightarrow> None
               | best # _ \<Rightarrow> map_of lookup best))"

text \<open>To state which key a step picks: \<open>highest f cands k\<close> says that \<open>k\<close> is one of the
  candidates and no candidate has a greater score \<open>f\<close>.\<close>

definition highest :: "('a \<Rightarrow> rat) \<Rightarrow> 'a list \<Rightarrow> 'a \<Rightarrow> bool" where
  "highest f cands k \<longleftrightarrow> k \<in> set cands \<and> (\<forall>k'\<in>set cands. f k' \<le> f k)"

section \<open>The \<open>difflib\<close> scores on concrete strings\<close>

text \<open>
  To evaluate the resolution on concrete names, the scores of \<open>difflib.SequenceMatcher\<close>
  are written out from the library's documentation.  \<open>find_longest_match\<close> returns, of all
  longest common blocks of the two sequences, the one that starts earliest in the first
  sequence and, among those, earliest in the second; \<open>get_matching_blocks\<close> applies it
  recursively to the pieces left and right of the block; \<open>ratio()\<close> is \<open>2.0 * M / T\<close> for
  the total size \<open>M\<close> of the blocks and the total length \<open>T\<close>, and \<open>1.0\<close> when \<open>T = 0\<close>.
  (No junk is configured; the automatic junk heuristic only applies to a second sequence of
  200 or more elements, which this section does not cover.)
\<close>

definition block_candidates :: "'a list \<Rightarrow> 'a list \<Rightarrow> (nat \<times> nat \<times> nat) list" where
  "block_candidates xs ys =
     concat (map (\<lambda>k. concat (map (\<lambda>i. map (\<lambda>j. (k, i, j)) [0..<Suc (length ys - k)])
                                  [0..<Suc (length xs - k)]))
                 (rev [1..<Suc (min (length xs) (length ys))]))"

definition find_longest_match :: "'a list \<Rightarrow> 'a list \<Rightarrow> (nat \<times> nat \<times> nat) option" where
  "find_longest_match xs ys =
     List.find (\<lambda>(k, i, j). take k (drop i xs) = take k (drop j ys)) (block_candidates xs ys)"

lemma find_longest_match_bounds:
  assumes "find_longest_match xs ys = Some (k, i, j)"
  shows "0 < k \<and> i + k \<le> length xs \<and> j + k \<le> length ys"
proof -
  from assms have "(k, i, j) \<in> set (block_candidates xs ys)"
    unfolding find_longest_match_def by (auto simp: find_Some_iff in_set_conv_nth)
  then show ?thesis
    by (auto simp: block_candidates_def)
qed

function matching_total :: "'a list \<Rightarrow> 'a list \<Rightarrow> nat" where
  "matching_total xs ys =
     (case find_longest_match xs ys of
        None \<Rightarrow> 0
      | Some (k, i, j) \<Rightarrow>
          k + matching_total (take i xs) (take j ys)
            + matching_total (drop (i + k) xs) (drop (j + k) ys))"
  by pat_completeness auto
termination
proof (relation "measure (\<lambda>(xs, ys). length xs)")
  show "wf (measure (\<lambda>(xs, ys). length xs))" by simp
next
  fix xs ys :: "'a list" and x2 :: "nat \<times> nat \<times> nat" and k y i j
  assume "find_longest_match xs ys = Some x2" "(k, y) = x2" "(i, j) = y"
  then have "find_longest_match xs ys = Some (k, i, j)" by simp
  from find_longest_match_bounds [OF this]
  show "((take i xs, take j ys), (xs, ys)) \<in> measure (\<lambda>(xs, ys). length xs)" by simp
next
  fix xs ys :: "'a list" and x2 :: "nat \<times> nat \<times> nat" and k y i j
  assume "find_longest_match xs ys = Some x2" "(k, y) = x2" "(i, j) = y"
  then have "find_longest_match xs ys = Some (k, i, j)" by simp
  from find_longest_match_bounds [OF this]
  show "((drop (i + k) xs, drop (j + k) ys), (xs, ys)) \<in> measure (\<lambda>(xs, ys). length xs)" by auto
qed

fun quick_matches :: "'a list \<Rightarrow> 'a list \<Rightarrow> nat" where
  "quick_matches [] ys = 0"
| "quick_matches (x # xs) ys =
     (if x \<in> set ys then Suc (quick_matches xs (remove1 x ys)) else quick_matches xs ys)"

definition calculate_ratio :: "nat \<Rightarrow> nat \<Rightarrow> rat" where
  "calculate_ratio matches len = (if len = 0 then 1 else 2 * of_nat matches / of_nat len)"

definition difflib :: matcher where
  "difflib =
     \<lparr>sm_ratio = (\<lambda>a b. calculate_ratio (matching_total a b) (length a + length b)),
      sm_quick_ratio = (\<lambda>a b. calculate_ratio (quick_matches a b) (length a + length b)),
      sm_real_quick_ratio = (\<lambda>a b. calculate_ratio (min (length a) (length b)) (length a + length b))\<rparr>"

section \<open>Panel detection (\<open>find_tooltip_panel_by_color\<close>)\<close>









section \<open>Name-region crops (\<open>_crop_name_region_from_panel_generic\<close>)\<close>

text \<open>
  A numpy image is represented by the window of the captured frame it shows: a slice of an
  array is a view on the same pixels.  \<open>region\<close> gives the window's first row and column in
  the frame and its extent; the frame itself is the window at \<open>(0, 0)\<close> of the frame's size.
  An image has no elements (\<open>size == 0\<close>) exactly when a side is \<open>0\<close> (the frames have three
  channels).
\<close>

record region =
  top :: nat
  left :: nat
  height :: nat
  width :: nat

definition frame_of :: "nat \<Rightarrow> nat \<Rightarrow> region" where
  "frame_of h w = \<lparr>top = 0, left = 0, height = h, width = w\<rparr>"

text \<open>
  A bound \<open>i\<close> of a Python slice over an axis of length \<open>n\<close>: negative bounds count from the
  end, and every bound is clamped to \<open>[0, n]\<close>.  \<open>a[lo:hi]\<close> starts at the clamped \<open>lo\<close> and
  has the clamped \<open>hi\<close> minus the clamped \<open>lo\<close> elements, none when that is negative.
\<close>

definition slice_bound :: "int \<Rightarrow> nat \<Rightarrow> nat" where
  "slice_bound i n = (if i < 0 then nat (max 0 (i + int n)) else min (nat i) n)"

definition slice2 :: "region \<Rightarrow> int \<Rightarrow> int \<Rightarrow> int \<Rightarrow> int \<Rightarrow> region" where
  "slice2 img y1 y2 x1 x2 =
     \<lparr>top = top img + slice_bound y1 (height img),
      left = left img + slice_bound x1 (width img),
      height = slice_bound y2 (height img) - slice_bound y1 (height img),
      width = slice_bound x2 (width img) - slice_bound x1 (width img)\<rparr>"

definition REF_W :: int where "REF_W = 1920"
definition REF_H :: int where "REF_H = 1080"

text \<open>\<open>int(x)\<close> on a float truncates towards zero.  The products \<open>ref_x * scale_x\<close> are
  modelled exactly; at the frames used below the scale is a power of two and the float
  product is exact as well.\<close>

definition py_int :: "rat \<Rightarrow> int" where
  "py_int q = (if 0 \<le> q then \<lfloor>q\<rfloor> else \<lceil>q\<rceil>)"

text \<open>The rectangle \<open>(nx1, ny1, nx2, ny2)\<close> after the four clamps, for a frame of \<open>th\<close>
  rows and \<open>tw\<close> columns.\<close>

definition name_rect :: "int \<Rightarrow> int \<Rightarrow> int \<Rightarrow> int \<Rightarrow> int \<Rightarrow> int \<Rightarrow> int \<times> int \<times> int \<times> int" where
  "name_rect th tw ref_x ref_y ref_w ref_h =
     (let scale_x = of_int tw / of_int REF_W;
          scale_y = of_int th / of_int REF_H;
          nx1 = py_int (of_int ref_x * scale_x);
          ny1 = py_int (of_int ref_y * scale_y);
          nw = py_int (of_int ref_w * scale_x);
          nh = py_int (of_int ref_h * scale_y);
          nx2 = nx1 + nw;
          ny2 = ny1 + nh;
          nx1' = max 0 (min nx1 (tw - 1));
          ny1' = max 0 (min ny1 (th - 1));
          nx2' = max (nx1' + 1) (min nx2 tw);
          ny2' = max (ny1' + 1) (min ny2 th)
      in (nx1', ny1', nx2', ny2'))"

definition crop_name_region_from_panel_generic ::
  "region option \<Rightarrow> box option \<Rightarrow> int \<Rightarrow> int \<Rightarrow> int \<Rightarrow> int \<Rightarrow> region option" where
  "crop_name_region_from_panel_generic frame_bgr panel_box ref_x ref_y ref_w ref_h =
     (case (frame_bgr, panel_box) of
        (Some frame, Some (px1, py1, px2, py2)) \<Rightarrow>
          if height frame = 0 \<or> width frame = 0 then None
          else
            let tooltip = slice2 frame py1 py2 px1 px2;
                (nx1, ny1, nx2, ny2) =
                  name_rect (int (height frame)) (int (width frame)) ref_x ref_y ref_w ref_h
            in Some (slice2 tooltip ny1 ny2 nx1 nx2)
      | _ \<Rightarrow> None)"

text \<open>\<open>crop_name_region_from_panel\<close> and \<open>crop_name_region_from_panel_alt\<close> with the
  constants \<open>NAME_REF_X = 15\<close>, \<open>NAME_REF_Y = 54\<close>, \<open>NAME_REF_W = 340\<close>, \<open>NAME_REF_H = 90\<close>
  and \<open>NAME_REF_X2 = 15\<close>, \<open>NAME_REF_Y2 = 4\<close>, \<open>NAME_REF_W2 = 340\<close>, \<open>NAME_REF_H2 = 90\<close>.\<close>

definition crop_name_region_from_panel :: "region option \<Rightarrow> box option \<Rightarrow> region option" where
  "crop_name_region_from_panel frame_bgr panel_box =
     crop_name_region_from_panel_generic frame_bgr panel_box 15 54 340 90"

definition crop_name_region_from_panel_alt :: "region option \<Rightarrow> box option \<Rightarrow> region option" where
  "crop_name_region_from_panel_alt frame_bgr panel_box =
     crop_name_region_from_panel_generic frame_bgr panel_box 15 4 340 90"

section \<open>Overlay placement (\<open>show_helper_tooltip\<close>)\<close>














section \<open>OCR throttling (\<open>compute_name_roi_hash\<close> and the capture branch of \<open>main_live\<close>)\<close>

















section \<open>The OCR worker (\<open>ocr_db_worker\<close>)\<close>

text \<open>
  A task is the dictionary \<open>main_live\<close> puts on the queue.  OCR is library code:
  \<open>ocr\<close> stands for \<open>ocr_item_lines\<close> on a crop, returning the lines or raising an
  exception of class \<open>Exception\<close> (\<open>Inl\<close> of its \<open>str\<close>); \<open>resolve\<close> stands for
  \<open>find_item_row_by_name\<close>, which does not raise.
\<close>

record 'roi ocr_task =
  task_id :: int
  roi_primary :: "'roi option"
  roi_secondary :: "'roi option"
  task_panel_box :: "box option"

text \<open>The loops \<open>for ln in lines: r = find_item_row_by_name(ln); if r is not None: ...; break\<close>
  (\<open>line\<close> is the source's \<open>ln\<close>).\<close>

fun first_match :: "(string \<Rightarrow> 'row option) \<Rightarrow> string list \<Rightarrow> (string \<times> 'row) option" where
  "first_match resolve [] = None"
| "first_match resolve (line # lines) =
     (case resolve line of Some r \<Rightarrow> Some (line, r) | None \<Rightarrow> first_match resolve lines)"

definition ok_result :: "'roi ocr_task \<Rightarrow> (string \<times> 'row) option \<Rightarrow> bool \<Rightarrow> 'row ocr_result" where
  "ok_result task found used =
     \<lparr>res_task_id = task_id task, res_name = map_option fst found, res_row = map_option snd found,
      res_panel_box = task_panel_box task, res_secondary_used = used, res_error = None\<rparr>"

definition error_result :: "'roi ocr_task \<Rightarrow> string \<Rightarrow> 'row ocr_result" where
  "error_result task e =
     \<lparr>res_task_id = task_id task, res_name = None, res_row = None,
      res_panel_box = task_panel_box task, res_secondary_used = False, res_error = Some e\<rparr>"

text \<open>The body of the loop for one task: the inner \<open>try\<close> with its \<open>except Exception\<close>.
  The value is the result put on \<open>ocr_result_queue\<close>.\<close>

definition handle_task ::
  "('roi \<Rightarrow> string + string list) \<Rightarrow> (string \<Rightarrow> 'row option) \<Rightarrow> 'roi ocr_task \<Rightarrow> 'row ocr_result" where
  "handle_task ocr resolve task =
     (case (case roi_primary task of
              None \<Rightarrow> Inr None
            | Some roi \<Rightarrow> (case ocr roi of Inl e \<Rightarrow> Inl e | Inr lines \<Rightarrow> Inr (first_match resolve lines))) of
        Inl e \<Rightarrow> error_result task e
      | Inr (Some found) \<Rightarrow> ok_result task (Some found) False
      | Inr None \<Rightarrow>
          (case roi_secondary task of
             None \<Rightarrow> ok_result task None False
           | Some roi2 \<Rightarrow>
               (case ocr roi2 of
                  Inl e \<Rightarrow> error_result task e
                | Inr lines \<Rightarrow>
                    (case first_match resolve lines of
                       Some found \<Rightarrow> ok_result task (Some found) True
                     | None \<Rightarrow> ok_result task None False))))"

text \<open>
  The worker thread.  The queue is the list of everything that is ever put on
  \<open>ocr_task_queue\<close>, in order; \<open>None\<close> is the sentinel.  The worker ends in one of three
  ways: it leaves the loop at the sentinel, it waits in \<open>ocr_task_queue.get()\<close> for ever
  because nothing more arrives, or \<open>init_ocr\<close> raised before the loop.  \<open>w_engine\<close> tells
  whether \<open>OCR_API\<close> holds an engine afterwards, \<open>w_ended\<close> whether \<open>OCR_API.End()\<close> was
  called, \<open>w_results\<close> is what was put on \<open>ocr_result_queue\<close> and \<open>w_left_count\<close> how
  many items remain on the task queue.
\<close>

datatype worker_status = Exited | Waiting | InitFailed

record 'row worker_outcome =
  w_status :: worker_status
  w_results :: "'row ocr_result list"
  w_left_count :: nat
  w_engine :: bool
  w_ended :: bool

fun worker_loop ::
  "('roi \<Rightarrow> string + string list) \<Rightarrow> (string \<Rightarrow> 'row option) \<Rightarrow> 'roi ocr_task option list
     \<Rightarrow> worker_status \<times> 'row ocr_result list \<times> nat" where
  "worker_loop ocr resolve [] = (Waiting, [], 0)"
| "worker_loop ocr resolve (None # q) = (Exited, [], length q)"
| "worker_loop ocr resolve (Some task # q) =
     (case worker_loop ocr resolve q of
        (st, rs, n) \<Rightarrow> (st, handle_task ocr resolve task # rs, n))"

definition ocr_db_worker ::
  "bool \<Rightarrow> ('roi \<Rightarrow> string + string list) \<Rightarrow> (string \<Rightarrow> 'row option) \<Rightarrow> 'roi ocr_task option list
     \<Rightarrow> 'row worker_outcome" where
  "ocr_db_worker init_ok ocr resolve q =
     (if \<not> init_ok then
        \<lparr>w_status = InitFailed, w_results = [], w_left_count = length q, w_engine = False,
         w_ended = False\<rparr>
      else
        (case worker_loop ocr resolve q of
           (Waiting, rs, n) \<Rightarrow>
             \<lparr>w_status = Waiting, w_results = rs, w_left_count = n, w_engine = True, w_ended = False\<rparr>
         | (st, rs, n) \<Rightarrow>
             \<lparr>w_status = st, w_results = rs, w_left_count = n, w_engine = False, w_ended = True\<rparr>))"

section \<open>Concrete inputs\<close>

text \<open>Inputs on which the theorems below are instantiated.\<close>

text \<open>A result of the worker for a resolved task.\<close>

definition sample_result :: "int \<Rightarrow> string \<Rightarrow> string ocr_result" where
  "sample_result rid item =
     \<lparr>res_task_id = rid, res_name = Some item, res_row = Some item,
      res_panel_box = Some (100, 100, 400, 300), res_secondary_used = False, res_error = None\<rparr>"

text \<open>An OCR that raises on the crop \<open>0\<close> and reads two lines on any other, a resolver that
  knows one name, and a task with a primary crop only.\<close>

definition sample_ocr :: "nat \<Rightarrow> string + string list" where
  "sample_ocr roi = (if roi = 0 then Inl ''tesseract failed'' else Inr [''Raider Hatch Key'', ''Oil''])"

definition sample_resolve :: "string \<Rightarrow> nat option" where
  "sample_resolve name = (if name = ''Oil'' then Some 7 else None)"

definition sample_task :: "int \<Rightarrow> nat \<Rightarrow> nat ocr_task" where
  "sample_task tid roi =
     \<lparr>task_id = tid, roi_primary = Some roi, roi_secondary = None,
      task_panel_box = Some (100, 100, 400, 300)\<rparr>"




text \<open>Two database rows whose names collide on the key \<open>mag 2\<close>.\<close>

definition colliding_rows :: "row list" where
  "colliding_rows =
     [[(''Name'', ''Mag II''), (''Verdict'', ''KEEP'')],
      [(''Name'', ''MAG 2''), (''Verdict'', ''SELL'')]]"



text \<open>A database of three items.\<close>

definition sample_db :: "row list" where
  "sample_db =
     [[(''Name'', ''Raider Hatch Key''), (''Verdict'', ''KEEP'')],
      [(''Name'', ''Oil''), (''Verdict'', ''RECYCLE'')],
      [(''Name'', ''Rope''), (''Verdict'', ''SELL'')]]"

section \<open>Notions used in the analysis of \<open>normalize_name_for_match\<close>\<close>




definition clean_char :: "char \<Rightarrow> char" where
  "clean_char c =
     (if upper_ascii c = CHR ''|'' \<or> upper_ascii c = CHR ''L'' then CHR ''I'' else upper_ascii c)"



section \<open>Theorems\<close>

subsection \<open>Result staleness\<close>

lemma drain_one_latest_mono: "latest_result_id s \<le> latest_result_id (drain_one a s r)"
  by (simp add: drain_one_def hide_helper_tooltip_def Let_def)

lemma drain_latest_mono: "latest_result_id s \<le> latest_result_id (drain a s q)"
proof (induction q arbitrary: s)
  case Nil
  show ?case by simp
next
  case (Cons r q)
  have "latest_result_id s \<le> latest_result_id (drain_one a s r)"
    by (rule drain_one_latest_mono)
  also have "\<dots> \<le> latest_result_id (drain a (drain_one a s r) q)"
    by (rule Cons.IH)
  finally show ?case by simp
qed

lemma drain_one_stale: "res_task_id r < latest_result_id s \<Longrightarrow> drain_one a s r = s"
  by (simp add: drain_one_def)

lemma drain_one_accepts:
  "latest_result_id s \<le> res_task_id r \<Longrightarrow> latest_result_id (drain_one a s r) = res_task_id r"
  by (simp add: drain_one_def hide_helper_tooltip_def Let_def)

lemma drain_one_resolved:
  assumes "latest_result_id s \<le> res_task_id r" and "\<not> truthy (res_error r)"
    and "truthy (res_name r)" and "res_row r \<noteq> None"
  shows "last_name (drain_one True s r) = res_name r \<and> last_row (drain_one True s r) = res_row r"
  using assms by (simp add: drain_one_def Let_def)

text \<open>
  C4.  A result changes the state only when its task id is not older than
  \<open>latest_result_id\<close> (an older one leaves the whole state as it was); \<open>latest_result_id\<close>
  never decreases, over one result and over a whole drain; and for results arriving with the
  task ids 5, 3, 7, 6 in that order, from a state whose \<open>latest_result_id\<close> is at most 5, the
  drain is the processing of the result 5 and then of the result 7: the results 3 and 6 are
  discarded, 5 and 7 are accepted as the latest id, and when the tooltip is active and the
  two carry a resolved name and row without error, first the one of 5 and then the one of 7
  is the state's \<open>last_name\<close> and \<open>last_row\<close>.
\<close>

theorem result_staleness:
  fixes s :: "'row live_state"
  shows "(drain_one a s r \<noteq> s \<longrightarrow> latest_result_id s \<le> res_task_id r)
    \<and> latest_result_id s \<le> latest_result_id (drain_one a s r)
    \<and> latest_result_id s \<le> latest_result_id (drain a s q)
    \<and> (latest_result_id s \<le> 5 \<and> res_task_id r5 = 5 \<and> res_task_id r3 = 3
          \<and> res_task_id r7 = 7 \<and> res_task_id r6 = 6 \<longrightarrow>
        drain a s [r5, r3, r7, r6] = drain_one a (drain_one a s r5) r7
        \<and> drain_one a (drain_one a s r5) r3 = drain_one a s r5
        \<and> drain_one a (drain_one a (drain_one a s r5) r7) r6 = drain_one a (drain_one a s r5) r7
        \<and> latest_result_id (drain_one a s r5) = 5
        \<and> latest_result_id (drain a s [r5, r3, r7, r6]) = 7
        \<and> (a \<and> \<not> truthy (res_error r5) \<and> truthy (res_name r5) \<and> res_row r5 \<noteq> None
             \<and> \<not> truthy (res_error r7) \<and> truthy (res_name r7) \<and> res_row r7 \<noteq> None \<longrightarrow>
            last_name (drain a s [r5]) = res_name r5 \<and> last_row (drain a s [r5]) = res_row r5
            \<and> last_name (drain a s [r5, r3]) = res_name r5 \<and> last_row (drain a s [r5, r3]) = res_row r5
            \<and> last_name (drain a s [r5, r3, r7]) = res_name r7
            \<and> last_row (drain a s [r5, r3, r7]) = res_row r7
            \<and> last_name (drain a s [r5, r3, r7, r6]) = res_name r7
            \<and> last_row (drain a s [r5, r3, r7, r6]) = res_row r7))"
proof -
  have only: "drain_one a s r \<noteq> s \<longrightarrow> latest_result_id s \<le> res_task_id r"
    using drain_one_stale [of r s a] by force
  have ex: "drain a s [r5, r3, r7, r6] = drain_one a (drain_one a s r5) r7
        \<and> drain_one a (drain_one a s r5) r3 = drain_one a s r5
        \<and> drain_one a (drain_one a (drain_one a s r5) r7) r6 = drain_one a (drain_one a s r5) r7
        \<and> latest_result_id (drain_one a s r5) = 5
        \<and> latest_result_id (drain a s [r5, r3, r7, r6]) = 7
        \<and> (a \<and> \<not> truthy (res_error r5) \<and> truthy (res_name r5) \<and> res_row r5 \<noteq> None
             \<and> \<not> truthy (res_error r7) \<and> truthy (res_name r7) \<and> res_row r7 \<noteq> None \<longrightarrow>
            last_name (drain a s [r5]) = res_name r5 \<and> last_row (drain a s [r5]) = res_row r5
            \<and> last_name (drain a s [r5, r3]) = res_name r5 \<and> last_row (drain a s [r5, r3]) = res_row r5
            \<and> last_name (drain a s [r5, r3, r7]) = res_name r7
            \<and> last_row (drain a s [r5, r3, r7]) = res_row r7
            \<and> last_name (drain a s [r5, r3, r7, r6]) = res_name r7
            \<and> last_row (drain a s [r5, r3, r7, r6]) = res_row r7)"
    if h: "latest_result_id s \<le> 5" "res_task_id r5 = 5" "res_task_id r3 = 3"
      "res_task_id r7 = 7" "res_task_id r6 = 6"
  proof -
    let ?s5 = "drain_one a s r5"
    let ?s7 = "drain_one a ?s5 r7"
    have l5: "latest_result_id ?s5 = 5"
      using drain_one_accepts [of s r5 a] h by simp
    have d3: "drain_one a ?s5 r3 = ?s5"
      using drain_one_stale [of r3 ?s5 a] l5 h by simp
    have l7: "latest_result_id ?s7 = 7"
      using drain_one_accepts [of ?s5 r7 a] l5 h by simp
    have d6: "drain_one a ?s7 r6 = ?s7"
      using drain_one_stale [of r6 ?s7 a] l7 h by simp
    have all: "drain a s [r5, r3, r7, r6] = ?s7"
      by (simp add: d3 d6)
    have vis: "last_name ?s5 = res_name r5 \<and> last_row ?s5 = res_row r5
        \<and> last_name ?s7 = res_name r7 \<and> last_row ?s7 = res_row r7"
      if v: "a" "\<not> truthy (res_error r5)" "truthy (res_name r5)" "res_row r5 \<noteq> None"
        "\<not> truthy (res_error r7)" "truthy (res_name r7)" "res_row r7 \<noteq> None"
    proof -
      have "latest_result_id s \<le> res_task_id r5" using h by simp
      then have a5: "last_name (drain_one True s r5) = res_name r5
          \<and> last_row (drain_one True s r5) = res_row r5"
        using v by (intro drain_one_resolved) simp_all
      have "latest_result_id ?s5 \<le> res_task_id r7" using l5 h by simp
      then have a7: "last_name (drain_one True ?s5 r7) = res_name r7
          \<and> last_row (drain_one True ?s5 r7) = res_row r7"
        using v by (intro drain_one_resolved) simp_all
      from a5 a7 v(1) show ?thesis by simp
    qed
    have e1: "drain a s [r5] = ?s5" by simp
    have e2: "drain a s [r5, r3] = ?s5" by (simp add: d3)
    have e3: "drain a s [r5, r3, r7] = ?s7" by (simp add: d3)
    have l7': "latest_result_id (drain a s [r5, r3, r7, r6]) = 7"
      by (simp only: all l7)
    show ?thesis
      unfolding e1 e2 e3 all using d3 d6 l5 l7 vis by blast
  qed
  show ?thesis
    using only drain_one_latest_mono [of s a r] drain_latest_mono [of s a q] ex by blast
qed

theorem result_staleness_witness:
  "drain True initial_live_state
      [sample_result 5 ''Five'', sample_result 3 ''Three'', sample_result 7 ''Seven'',
       sample_result 6 ''Six'']
     = drain_one True (drain_one True initial_live_state (sample_result 5 ''Five''))
         (sample_result 7 ''Seven'')
   \<and> last_name (drain True initial_live_state [sample_result 5 ''Five'']) = Some ''Five''
   \<and> last_name (drain True initial_live_state
        [sample_result 5 ''Five'', sample_result 3 ''Three'']) = Some ''Five''
   \<and> last_name (drain True initial_live_state
        [sample_result 5 ''Five'', sample_result 3 ''Three'', sample_result 7 ''Seven'',
         sample_result 6 ''Six'']) = Some ''Seven''
   \<and> latest_result_id (drain True initial_live_state
        [sample_result 5 ''Five'', sample_result 3 ''Three'', sample_result 7 ''Seven'',
         sample_result 6 ''Six'']) = 7"
proof -
  let ?s = "initial_live_state :: string live_state"
  let ?r5 = "sample_result 5 ''Five''" and ?r3 = "sample_result 3 ''Three''"
  let ?r7 = "sample_result 7 ''Seven''" and ?r6 = "sample_result 6 ''Six''"
  have ids: "latest_result_id ?s \<le> 5 \<and> res_task_id ?r5 = 5 \<and> res_task_id ?r3 = 3
      \<and> res_task_id ?r7 = 7 \<and> res_task_id ?r6 = 6"
    by (simp add: sample_result_def initial_live_state_def)
  have ok: "True \<and> \<not> truthy (res_error ?r5) \<and> truthy (res_name ?r5) \<and> res_row ?r5 \<noteq> None
      \<and> \<not> truthy (res_error ?r7) \<and> truthy (res_name ?r7) \<and> res_row ?r7 \<noteq> None"
    by (simp add: sample_result_def truthy_def)
  have n5: "res_name ?r5 = Some ''Five''" and n7: "res_name ?r7 = Some ''Seven''"
    by (simp_all add: sample_result_def)
  from result_staleness [of True ?s ?r5 "[]" ?r5 ?r3 ?r7 ?r6] ids ok
  have "drain True ?s [?r5, ?r3, ?r7, ?r6] = drain_one True (drain_one True ?s ?r5) ?r7
      \<and> last_name (drain True ?s [?r5]) = res_name ?r5
      \<and> last_name (drain True ?s [?r5, ?r3]) = res_name ?r5
      \<and> last_name (drain True ?s [?r5, ?r3, ?r7, ?r6]) = res_name ?r7
      \<and> latest_result_id (drain True ?s [?r5, ?r3, ?r7, ?r6]) = 7"
    by blast
  then show ?thesis
    unfolding n5 n7 by blast
qed

subsection \<open>The OCR worker\<close>

lemma handle_task_primary_raises:
  "roi_primary t = Some roi \<Longrightarrow> ocr roi = Inl e \<Longrightarrow> handle_task ocr resolve t = error_result t e"
  by (simp add: handle_task_def)

lemma handle_task_secondary_raises:
  assumes "case roi_primary t of None \<Rightarrow> True
           | Some roi \<Rightarrow> (\<exists>lines. ocr roi = Inr lines \<and> first_match resolve lines = None)"
    and "roi_secondary t = Some roi2" and "ocr roi2 = Inl e"
  shows "handle_task ocr resolve t = error_result t e"
  using assms by (auto simp: handle_task_def split: option.splits)

lemma handle_task_error_shape:
  "res_error (handle_task ocr resolve t) \<noteq> None \<Longrightarrow>
     res_name (handle_task ocr resolve t) = None \<and> res_row (handle_task ocr resolve t) = None"
  by (auto simp: handle_task_def error_result_def ok_result_def split: option.splits sum.splits)

lemma worker_loop_sentinel:
  "worker_loop ocr resolve (map Some tasks @ None # rest)
     = (Exited, map (handle_task ocr resolve) tasks, length rest)"
  by (induction tasks) simp_all

lemma worker_loop_no_sentinel:
  "worker_loop ocr resolve (map Some tasks) = (Waiting, map (handle_task ocr resolve) tasks, 0)"
  by (induction tasks) simp_all

text \<open>
  C8.  With the engine initialised, a queue holding any tasks and then the sentinel makes the
  worker put one result per task, in order, each the result of handling that task alone
  (whatever happened to the tasks before it), leave the loop at the sentinel, call
  \<open>OCR_API.End()\<close> and clear \<open>OCR_API\<close>; the items behind the sentinel stay on the queue.
  Without a sentinel the worker handles every task and waits.  A task whose OCR raises, on
  the primary crop or on the secondary crop after the primary resolved nothing, yields the
  error result: \<open>error\<close> is the exception's text, \<open>name\<close> and \<open>row\<close> are \<open>None\<close>, and the
  task id is the task's.
\<close>

theorem worker_survives_task_errors:
  fixes tasks :: "'roi ocr_task list" and ocr :: "'roi \<Rightarrow> string + string list"
    and resolve :: "string \<Rightarrow> 'row option"
  shows "w_status (ocr_db_worker True ocr resolve (map Some tasks @ None # rest)) = Exited
    \<and> w_ended (ocr_db_worker True ocr resolve (map Some tasks @ None # rest))
    \<and> \<not> w_engine (ocr_db_worker True ocr resolve (map Some tasks @ None # rest))
    \<and> w_left_count (ocr_db_worker True ocr resolve (map Some tasks @ None # rest)) = length rest
    \<and> w_results (ocr_db_worker True ocr resolve (map Some tasks @ None # rest))
        = map (handle_task ocr resolve) tasks
    \<and> w_status (ocr_db_worker True ocr resolve (map Some tasks)) = Waiting
    \<and> w_results (ocr_db_worker True ocr resolve (map Some tasks))
        = map (handle_task ocr resolve) tasks
    \<and> (\<forall>t roi e. roi_primary t = Some roi \<and> ocr roi = Inl e \<longrightarrow>
          handle_task ocr resolve t = error_result t e)
    \<and> (\<forall>t roi2 e.
          (case roi_primary t of None \<Rightarrow> True
           | Some roi \<Rightarrow> (\<exists>lines. ocr roi = Inr lines \<and> first_match resolve lines = None))
          \<and> roi_secondary t = Some roi2 \<and> ocr roi2 = Inl e \<longrightarrow>
          handle_task ocr resolve t = error_result t e)
    \<and> (\<forall>t e. res_error (error_result t e :: 'row ocr_result) = Some e
          \<and> res_name (error_result t e :: 'row ocr_result) = None
          \<and> res_row (error_result t e :: 'row ocr_result) = None
          \<and> res_task_id (error_result t e :: 'row ocr_result) = task_id t)"
proof -
  have a: "\<forall>t roi e. roi_primary t = Some roi \<and> ocr roi = Inl e \<longrightarrow>
          handle_task ocr resolve t = error_result t e"
    by (blast intro: handle_task_primary_raises)
  have b: "\<forall>t roi2 e.
          (case roi_primary t of None \<Rightarrow> True
           | Some roi \<Rightarrow> (\<exists>lines. ocr roi = Inr lines \<and> first_match resolve lines = None))
          \<and> roi_secondary t = Some roi2 \<and> ocr roi2 = Inl e \<longrightarrow>
          handle_task ocr resolve t = error_result t e"
    by (blast intro: handle_task_secondary_raises)
  show ?thesis
    using a b
    by (simp add: ocr_db_worker_def worker_loop_sentinel worker_loop_no_sentinel error_result_def)
qed

theorem worker_survives_task_errors_witness:
  "w_results (ocr_db_worker True sample_ocr sample_resolve
       [Some (sample_task 1 0), Some (sample_task 2 5), None])
     = [error_result (sample_task 1 0) ''tesseract failed'',
        ok_result (sample_task 2 5) (Some (''Oil'', 7)) False]
   \<and> w_status (ocr_db_worker True sample_ocr sample_resolve
       [Some (sample_task 1 0), Some (sample_task 2 5), None]) = Exited
   \<and> \<not> w_engine (ocr_db_worker True sample_ocr sample_resolve
       [Some (sample_task 1 0), Some (sample_task 2 5), None])"
proof -
  let ?q = "[Some (sample_task 1 0), Some (sample_task 2 5), None]"
  have q: "?q = map Some [sample_task 1 0, sample_task 2 5] @ None # []" by simp
  note th = worker_survives_task_errors [of sample_ocr sample_resolve
      "[sample_task 1 0, sample_task 2 5]" "[]"]
  have p: "roi_primary (sample_task 1 0) = Some 0 \<and> sample_ocr 0 = Inl ''tesseract failed''"
    by (simp add: sample_task_def sample_ocr_def)
  from th p have h1: "handle_task sample_ocr sample_resolve (sample_task 1 0)
      = (error_result (sample_task 1 0) ''tesseract failed'' :: nat ocr_result)"
    by blast
  have h2: "handle_task sample_ocr sample_resolve (sample_task 2 5)
      = ok_result (sample_task 2 5) (Some (''Oil'', 7)) False"
    by (simp add: handle_task_def sample_task_def sample_ocr_def sample_resolve_def)
  from th have "w_results (ocr_db_worker True sample_ocr sample_resolve ?q)
        = map (handle_task sample_ocr sample_resolve) [sample_task 1 0, sample_task 2 5]
      \<and> w_status (ocr_db_worker True sample_ocr sample_resolve ?q) = Exited
      \<and> \<not> w_engine (ocr_db_worker True sample_ocr sample_resolve ?q)"
    unfolding q by blast
  then show ?thesis
    by (simp add: h1 h2)
qed

subsection \<open>Panel detection\<close>


lemma sort_key_Nil_iff: "sort_key f xs = [] \<longleftrightarrow> xs = []"
  by (metis length_sort length_0_conv)





subsection \<open>Name-region crops\<close>

lemma clamp_pair:
  fixes n a b :: int
  assumes "0 < n"
  shows "0 \<le> max 0 (min a (n - 1)) \<and> max 0 (min a (n - 1)) < max (max 0 (min a (n - 1)) + 1) (min b n)
    \<and> max (max 0 (min a (n - 1)) + 1) (min b n) \<le> n"
  using assms by (simp add: max_def min_def)

text \<open>The rectangle the function computes lies within the frame and is at least one pixel
  wide and high.\<close>

lemma name_rect_min_size:
  assumes "0 < th" "0 < tw"
    and r: "name_rect th tw ref_x ref_y ref_w ref_h = (nx1, ny1, nx2, ny2)"
  shows "0 \<le> nx1 \<and> nx1 < nx2 \<and> nx2 \<le> tw \<and> 0 \<le> ny1 \<and> ny1 < ny2 \<and> ny2 \<le> th"
proof -
  let ?a = "py_int (of_int ref_x * (of_int tw / of_int REF_W))"
  let ?b = "?a + py_int (of_int ref_w * (of_int tw / of_int REF_W))"
  let ?c = "py_int (of_int ref_y * (of_int th / of_int REF_H))"
  let ?d = "?c + py_int (of_int ref_h * (of_int th / of_int REF_H))"
  from r have e1: "max 0 (min ?a (tw - 1)) = nx1" and e3: "max 0 (min ?c (th - 1)) = ny1"
    by (simp_all add: name_rect_def Let_def)
  from r have e2: "max (nx1 + 1) (min ?b tw) = nx2" and e4: "max (ny1 + 1) (min ?d th) = ny2"
    unfolding e1 [symmetric] e3 [symmetric] by (simp_all add: name_rect_def Let_def)
  from clamp_pair [OF assms(2), of ?a ?b] have "0 \<le> nx1 \<and> nx1 < nx2 \<and> nx2 \<le> tw"
    unfolding e1 e2 .
  moreover from clamp_pair [OF assms(1), of ?c ?d] have "0 \<le> ny1 \<and> ny1 < ny2 \<and> ny2 \<le> th"
    unfolding e3 e4 .
  ultimately show ?thesis by simp
qed

text \<open>
  C6.  The rectangle is cut out of the panel's sub-image \<open>frame_bgr[py1:py2, px1:px2]\<close>, while
  its clamps use the size of the frame.  On a frame of 7680 by 4320 pixels (scale 4) the
  primary rectangle is \<open>[216:576, 60:1420]\<close>; for the panel box \<open>(0, 0, 200, 200)\<close> the
  sub-image has 200 rows, and the returned crop has no row at all.
\<close>

theorem crop_empty_on_small_panel:
  "name_rect 4320 7680 15 54 340 90 = (60, 216, 1420, 576)
   \<and> crop_name_region_from_panel (Some (frame_of 4320 7680)) (Some (0, 0, 200, 200))
       = Some \<lparr>top = 200, left = 60, height = 0, width = 140\<rparr>"
  by code_simp

subsection \<open>Overlay placement\<close>





subsection \<open>The item table\<close>

lemma map_of_dict_set: "map_of (dict_set d k v) = (map_of d)(k \<mapsto> v)"
  by (induction d) (auto simp: fun_eq_iff)

lemma dict_keys_map_of: "k \<in> set (dict_keys d) \<longleftrightarrow> map_of d k \<noteq> None"
  by (simp add: dict_keys_def map_of_eq_None_iff)

lemma build_step_key:
  "build_step (i, r) (L, ordx) =
     (case row_key r of
        None \<Rightarrow> (L, ordx)
      | Some k \<Rightarrow> (dict_set L k r, if map_of ordx k \<noteq> None then ordx else dict_set ordx k i))"
  by (simp add: build_step_def row_key_def Let_def dict_keys_map_of)

lemma build_snoc:
  "build_item_lookup (rows @ [r]) = build_step (length rows, r) (build_item_lookup rows)"
  by (simp add: build_item_lookup_def enumerate_append_eq)

lemma indices_snoc:
  "indices_of_key (rows @ [r]) k
     = indices_of_key rows k @ (if row_key r = Some k then [length rows] else [])"
proof -
  have "filter (\<lambda>i. row_key ((rows @ [r]) ! i) = Some k) [0..<length rows]
      = filter (\<lambda>i. row_key (rows ! i) = Some k) [0..<length rows]"
    by (rule filter_cong) (auto simp: nth_append)
  then show ?thesis
    by (simp add: indices_of_key_def)
qed

lemma build_tables:
  "map_of (fst (build_item_lookup rows)) k
     = (if indices_of_key rows k = [] then None else Some (rows ! last (indices_of_key rows k)))
   \<and> map_of (snd (build_item_lookup rows)) k
     = (if indices_of_key rows k = [] then None else Some (hd (indices_of_key rows k)))"
proof (induction rows rule: rev_induct)
  case Nil
  show ?case by (simp add: build_item_lookup_def indices_of_key_def)
next
  case (snoc r rows)
  obtain L ordx where t: "build_item_lookup rows = (L, ordx)" by (cases "build_item_lookup rows")
  from snoc t have L: "map_of L k
       = (if indices_of_key rows k = [] then None else Some (rows ! last (indices_of_key rows k)))"
    and O: "map_of ordx k
       = (if indices_of_key rows k = [] then None else Some (hd (indices_of_key rows k)))"
    by simp_all
  have lt: "indices_of_key rows k \<noteq> [] \<Longrightarrow> last (indices_of_key rows k) < length rows"
    using last_in_set [of "indices_of_key rows k"] by (auto simp: indices_of_key_def)
  show ?case
  proof (cases "row_key r")
    case None
    then show ?thesis
      using L O lt by (simp add: build_snoc t build_step_key indices_snoc nth_append)
  next
    case (Some k')
    show ?thesis
    proof (cases "k' = k")
      case True
      with Some show ?thesis
        using L O by (simp add: build_snoc t build_step_key indices_snoc map_of_dict_set)
    next
      case False
      with Some show ?thesis
        using L O lt
        by (auto simp: build_snoc t build_step_key indices_snoc map_of_dict_set nth_append)
    qed
  qed
qed

lemma indices_hd_less_last:
  assumes "2 \<le> length (indices_of_key rows k)"
  shows "hd (indices_of_key rows k) < last (indices_of_key rows k)"
proof -
  have s: "sorted_wrt (<) (indices_of_key rows k)"
    unfolding indices_of_key_def by (rule sorted_wrt_filter) (rule sorted_wrt_upt)
  from assms obtain a b ys where e: "indices_of_key rows k = a # b # ys"
    by (cases "indices_of_key rows k"; cases "tl (indices_of_key rows k)") auto
  have "last (b # ys) \<in> set (b # ys)" by (rule last_in_set) simp
  with s show ?thesis unfolding e by auto
qed

text \<open>
  C10.  For every database and every key: when no row is filed under the key, neither table
  has it; otherwise \<open>ITEM_LOOKUP\<close> maps the key to the last row filed under it and
  \<open>ITEM_ORDER\<close> maps it to the position of the first such row; and when two or more rows
  are filed under the key, that position is before the position of the row that
  \<open>ITEM_LOOKUP\<close> returns: the two tables speak of different database entries.
\<close>

theorem lookup_last_order_first:
  "(indices_of_key rows k = [] \<longrightarrow>
       map_of (ITEM_LOOKUP rows) k = None \<and> map_of (ITEM_ORDER rows) k = None)
   \<and> (indices_of_key rows k \<noteq> [] \<longrightarrow>
       map_of (ITEM_LOOKUP rows) k = Some (rows ! last (indices_of_key rows k))
       \<and> map_of (ITEM_ORDER rows) k = Some (hd (indices_of_key rows k)))
   \<and> (2 \<le> length (indices_of_key rows k) \<longrightarrow>
       hd (indices_of_key rows k) < last (indices_of_key rows k))"
  using build_tables [of rows k] indices_hd_less_last [of rows k]
  by (simp add: ITEM_LOOKUP_def ITEM_ORDER_def)

theorem lookup_last_order_first_witness:
  "indices_of_key colliding_rows ''mag 2'' = [0, 1]
   \<and> map_of (ITEM_LOOKUP colliding_rows) ''mag 2'' = Some [(''Name'', ''MAG 2''), (''Verdict'', ''SELL'')]
   \<and> map_of (ITEM_ORDER colliding_rows) ''mag 2'' = Some 0
   \<and> colliding_rows ! 0 = [(''Name'', ''Mag II''), (''Verdict'', ''KEEP'')]"
proof -
  have i: "indices_of_key colliding_rows ''mag 2'' = [0, 1]"
    by code_simp
  have r: "colliding_rows ! 1 = [(''Name'', ''MAG 2''), (''Verdict'', ''SELL'')]"
    "colliding_rows ! 0 = [(''Name'', ''Mag II''), (''Verdict'', ''KEEP'')]"
    by (simp_all add: colliding_rows_def)
  from lookup_last_order_first [of colliding_rows "''mag 2''"]
  have "map_of (ITEM_LOOKUP colliding_rows) ''mag 2'' = Some (colliding_rows ! 1)
      \<and> map_of (ITEM_ORDER colliding_rows) ''mag 2'' = Some 0"
    unfolding i by simp
  with i r show ?thesis by simp
qed

subsection \<open>Name normalisation\<close>

text \<open>
  C3.  The two names of the docstring do not get the same key: the table for names longer
  than three characters maps the capital \<open>I\<close> of \<open>LIGHT\<close> to \<open>l\<close>, and the lower-case
  \<open>i\<close> of \<open>Light\<close> stays.
\<close>

theorem trailing_numeral_keys_differ:
  "normalize_name_for_match ''Extended Light Mag II'' = ''extended light mag 2''
   \<and> normalize_name_for_match ''EXTENDED LIGHT MAG 2'' = ''extended llght mag 2''"
  by code_simp

text \<open>
  The rest of this subsection is about a second pass of \<open>normalize_name_for_match\<close> over its
  own result.  Characters are handled through their code points.
\<close>

lemma ord_less_256: "ord c < 256"
  by (simp add: ord_def)

lemma ord_eq_iff: "ord c = ord d \<longleftrightarrow> c = d"
  by (simp add: ord_def)

lemma ord_char_of: "n < 256 \<Longrightarrow> ord (char_of n) = n"
  by (simp add: ord_def)

lemma char_is:
  "c = CHR ''I'' \<longleftrightarrow> ord c = 73" "c = CHR ''|'' \<longleftrightarrow> ord c = 124"
  "c = CHR ''1'' \<longleftrightarrow> ord c = 49" "c = CHR ''0'' \<longleftrightarrow> ord c = 48"
  "c = CHR ''l'' \<longleftrightarrow> ord c = 108" "c = CHR ''o'' \<longleftrightarrow> ord c = 111"
  "c = CHR ''i'' \<longleftrightarrow> ord c = 105" "c = CHR ''L'' \<longleftrightarrow> ord c = 76"
  "c = CHR ''V'' \<longleftrightarrow> ord c = 86" "c = CHR ''v'' \<longleftrightarrow> ord c = 118"
  "c = CHR '' '' \<longleftrightarrow> ord c = 32"
  "c = CHR ''2'' \<longleftrightarrow> ord c = 50" "c = CHR ''3'' \<longleftrightarrow> ord c = 51" "c = CHR ''4'' \<longleftrightarrow> ord c = 52"
  by (simp_all add: ord_eq_iff [symmetric]) (simp_all add: ord_def)


lemma ord_upper:
  "ord (upper_ascii c) = (if 97 \<le> ord c \<and> ord c \<le> 122 then ord c - 32 else ord c)"
  by (auto simp: upper_ascii_def Let_def ord_char_of)

























lemma last_word_decomp:
  "\<exists>pre. s = pre @ last_word s \<and> (pre = [] \<or> \<not> is_word (last pre))"
proof -
  let ?w = "takeWhile is_word (rev s)" and ?d = "dropWhile is_word (rev s)"
  have "rev s = ?w @ ?d" by simp
  then have "rev (rev s) = rev (?w @ ?d)" by (rule arg_cong)
  then have e: "s = rev ?d @ rev ?w" by (simp only: rev_rev_ident rev_append)
  have "rev ?d = [] \<or> \<not> is_word (last (rev ?d))"
  proof (cases "?d = []")
    case True
    then show ?thesis by simp
  next
    case False
    then have "\<not> is_word (hd ?d)" by (rule hd_dropWhile)
    with False show ?thesis by (simp add: last_rev)
  qed
  with e show ?thesis unfolding last_word_def by blast
qed




lemma char_is2:
  "c = CHR ''X'' \<longleftrightarrow> ord c = 88" "c = CHR ''C'' \<longleftrightarrow> ord c = 67"
  "c = CHR ''D'' \<longleftrightarrow> ord c = 68" "c = CHR ''M'' \<longleftrightarrow> ord c = 77"
  by (simp_all add: ord_eq_iff [symmetric]) (simp_all add: ord_def)


lemma ord_clean_char:
  "ord (clean_char c) = (if ord (upper_ascii c) = 124 \<or> ord (upper_ascii c) = 76 then 73 else ord (upper_ascii c))"
  by (simp add: clean_char_def char_is) (simp add: ord_def)

lemma roman_letter_ord:
  "is_roman_letter c \<longleftrightarrow> ord (upper_ascii c) \<in> {73, 86, 88, 76, 67, 68, 77}"
  by (auto simp: is_roman_letter_def char_is char_is2)

lemma upper_eq:
  "65 \<le> u \<Longrightarrow> u \<le> 90 \<Longrightarrow> ord (upper_ascii c) = u \<longleftrightarrow> ord c = u \<or> ord c = u + 32"
  by (auto simp: ord_upper)

lemma roman_letter_cases:
  "is_roman_letter c \<longleftrightarrow>
     ord c = 73 \<or> ord c = 105 \<or> ord c = 86 \<or> ord c = 118 \<or> ord c = 88 \<or> ord c = 120
     \<or> ord c = 76 \<or> ord c = 108 \<or> ord c = 67 \<or> ord c = 99 \<or> ord c = 68 \<or> ord c = 100
     \<or> ord c = 77 \<or> ord c = 109"
  unfolding roman_letter_ord by (simp add: upper_eq)



lemma roman_is_word: "is_roman_letter c \<Longrightarrow> is_word c"
  unfolding roman_letter_cases is_word_def Let_def by (elim disjE) simp_all










lemma trailing_token_Some:
  "trailing_token s = Some w \<longleftrightarrow>
     w = last_word s \<and> w \<noteq> [] \<and> (list_all is_roman_letter w \<or> list_all is_digit w)"
  by (auto simp: trailing_token_def Let_def)

lemma prefix_decomp:
  "s = take (length s - length (last_word s)) s @ last_word s
   \<and> (take (length s - length (last_word s)) s = []
      \<or> \<not> is_word (last (take (length s - length (last_word s)) s)))"
proof -
  from last_word_decomp [of s] obtain pre where p: "s = pre @ last_word s"
    and n: "pre = [] \<or> \<not> is_word (last pre)" by blast
  from p have "length s = length pre + length (last_word s)" by (metis length_append)
  then have l: "length s - length (last_word s) = length pre" by simp
  have "take (length pre) (pre @ last_word s) = pre" by simp
  with p l have "take (length s - length (last_word s)) s = pre" by simp
  with p n show ?thesis by simp
qed



lemma rewrite_fixed:
  assumes "trailing_token s = None \<or> numeral_digit (last_word s) = None
      \<or> numeral_digit (last_word s) = Some (last_word s)"
  shows "rewrite_trailing_numeral s = s"
proof (cases "trailing_token s")
  case None
  then show ?thesis by (simp add: rewrite_trailing_numeral_def)
next
  case (Some w)
  then have w: "w = last_word s" using trailing_token_Some [of s w] by blast
  have e: "take (length s - length (last_word s)) s @ last_word s = s"
    using prefix_decomp [of s] by simp
  from assms Some have "numeral_digit (last_word s) = None
      \<or> numeral_digit (last_word s) = Some (last_word s)" by simp
  then show ?thesis
  proof
    assume "numeral_digit (last_word s) = None"
    with Some w show ?thesis by (simp add: rewrite_trailing_numeral_def)
  next
    assume "numeral_digit (last_word s) = Some (last_word s)"
    with Some w e show ?thesis by (simp add: rewrite_trailing_numeral_def)
  qed
qed















lemma clean_V_cases: "clean_char c = CHR ''V'' \<longleftrightarrow> ord c = 86 \<or> ord c = 118"
  by (auto simp: char_is ord_clean_char ord_upper split: if_splits)

















subsection \<open>OCR throttling\<close>













subsection \<open>Name resolution\<close>

lemma max_from_best:
  "max_from f b xs \<in> set (b # xs) \<and> (\<forall>x\<in>set (b # xs). f x \<le> f (max_from f b xs))"
proof (induction xs arbitrary: b)
  case Nil
  show ?case by simp
next
  case (Cons x xs)
  from Cons [of "if f b < f x then x else b"] show ?case
    by (auto split: if_splits)
qed

lemma py_max_highest: "cands \<noteq> [] \<Longrightarrow> highest f cands (py_max f cands)"
  using max_from_best [where f = f and b = "hd cands" and xs = "tl cands"]
  by (cases cands) (auto simp: highest_def py_max_def)

lemma py_max_accepts:
  "cands \<noteq> [] \<Longrightarrow> c \<le> f (py_max f cands) \<longleftrightarrow> (\<exists>k\<in>set cands. c \<le> f k)"
  using py_max_highest [where cands = cands and f = f] by (auto simp: highest_def intro: order.trans)

lemma is_in_iff: "is_in t k \<longleftrightarrow> (\<exists>p s. k = p @ t @ s)"
proof (induction k)
  case Nil
  show ?case by auto
next
  case (Cons c cs)
  have a: "take (length t) (c # cs) = t \<longleftrightarrow> (\<exists>s. c # cs = t @ s)"
    by (metis append_eq_conv_conj append_take_drop_id)
  have b: "(\<exists>p s. c # cs = p @ t @ s) \<longleftrightarrow> (\<exists>s. c # cs = t @ s) \<or> (\<exists>p s. cs = p @ t @ s)"
  proof
    assume "\<exists>p s. c # cs = p @ t @ s"
    then obtain p s where e: "c # cs = p @ t @ s" by blast
    show "(\<exists>s. c # cs = t @ s) \<or> (\<exists>p s. cs = p @ t @ s)"
    proof (cases p)
      case Nil
      with e show ?thesis by auto
    next
      case (Cons d p')
      with e have "cs = p' @ t @ s" by simp
      then show ?thesis by blast
    qed
  next
    assume "(\<exists>s. c # cs = t @ s) \<or> (\<exists>p s. cs = p @ t @ s)"
    then show "\<exists>p s. c # cs = p @ t @ s"
    proof
      assume "\<exists>s. c # cs = t @ s"
      then obtain s where "c # cs = [] @ t @ s" by auto
      then show ?thesis by blast
    next
      assume "\<exists>p s. cs = p @ t @ s"
      then obtain p s where "c # cs = (c # p) @ t @ s" by auto
      then show ?thesis by blast
    qed
  qed
  show ?case using Cons a b by simp
qed

lemma close_matches_one:
  assumes ub: "\<forall>x\<in>set ps. sm_ratio m x w \<le> sm_quick_ratio m x w \<and> sm_ratio m x w \<le> sm_real_quick_ratio m x w"
  shows "(get_close_matches m w ps 1 c = [] \<longleftrightarrow> \<not> (\<exists>x\<in>set ps. c \<le> sm_ratio m x w))
    \<and> (\<forall>k rest. get_close_matches m w ps 1 c = k # rest \<longrightarrow>
          rest = [] \<and> c \<le> sm_ratio m k w \<and> highest (\<lambda>x. sm_ratio m x w) ps k)"
proof -
  let ?Q = "\<lambda>x. c \<le> sm_real_quick_ratio m x w \<and> c \<le> sm_quick_ratio m x w \<and> c \<le> sm_ratio m x w"
  let ?R = "map (\<lambda>x. (sm_ratio m x w, x)) (filter ?Q ps)"
  have Q: "\<forall>x\<in>set ps. ?Q x \<longleftrightarrow> c \<le> sm_ratio m x w"
    using ub by (auto intro: order.trans)
  have g: "get_close_matches m w ps 1 c = map snd (take 1 (rev (sort ?R)))"
    by (simp add: get_close_matches_def Let_def)
  have e: "get_close_matches m w ps 1 c = [] \<longleftrightarrow> filter ?Q ps = []"
    unfolding g by (simp add: take_eq_Nil sort_key_Nil_iff)
  have e': "filter ?Q ps = [] \<longleftrightarrow> \<not> (\<exists>x\<in>set ps. c \<le> sm_ratio m x w)"
    using Q by (auto simp: filter_empty_conv)
  have s: "rest = [] \<and> c \<le> sm_ratio m k w \<and> highest (\<lambda>x. sm_ratio m x w) ps k"
    if h: "get_close_matches m w ps 1 c = k # rest" for k rest
  proof -
    from h obtain y ys where r: "rev (sort ?R) = y # ys" and k: "k = snd y" and rest: "rest = []"
      unfolding g by (cases "rev (sort ?R)") auto
    from r have srt: "sort ?R = rev ys @ [y]" by (simp add: rev_swap [symmetric])
    have "y \<in> set (sort ?R)" unfolding srt by simp
    then have yR: "y \<in> set ?R" by simp
    then have y: "y = (sm_ratio m k w, k)" and kq: "k \<in> set ps" "?Q k"
      using k by auto
    have "sorted (rev ys @ [y])" using sorted_sort [of ?R] unfolding srt .
    then have "\<forall>z\<in>set (rev ys @ [y]). z \<le> y" by (auto simp: sorted_append)
    then have mx: "\<forall>z\<in>set ?R. z \<le> y" unfolding srt [symmetric] by simp
    have "sm_ratio m x w \<le> sm_ratio m k w" if x: "x \<in> set ps" for x
    proof (cases "?Q x")
      case True
      with x have "(sm_ratio m x w, x) \<in> set ?R" by auto
      with mx have "(sm_ratio m x w, x) \<le> y" by blast
      then show ?thesis unfolding y by (auto simp: less_eq_prod_def)
    next
      case False
      with Q x have "sm_ratio m x w < c" by auto
      with kq show ?thesis by simp
    qed
    with kq rest show ?thesis by (simp add: highest_def)
  qed
  from e e' s show ?thesis by blast
qed

lemma accept_iff:
  "(cands \<noteq> [] \<and> c \<le> f (py_max f cands)) \<longleftrightarrow> (\<exists>k\<in>set cands. c \<le> f k)"
  using py_max_accepts [where cands = cands and c = c and f = f] by (cases cands) auto

lemma strict_candidates_set:
  "set (strict_candidates keys tokens) = {k \<in> set keys. \<forall>t\<in>set tokens. \<exists>p s. k = p @ t @ s}"
  by (auto simp: strict_candidates_def list_all_iff is_in_iff)

lemma partial_candidates_set:
  "set (partial_candidates keys nrm)
     = {k \<in> set keys. (\<exists>p s. k = p @ nrm @ s) \<or> (\<exists>p s. nrm = p @ k @ s)}"
  by (auto simp: partial_candidates_def is_in_iff)

text \<open>
  C1, as the code has it.  An empty name, or an empty table, resolves to \<open>None\<close>.  Otherwise,
  with \<open>nrm\<close> the normalized name and \<open>keys\<close> the keys of the table, the first of these
  steps that succeeds gives the result, the row \<open>ITEM_LOOKUP[k]\<close> of the key \<open>k\<close> it
  accepts: (1) \<open>nrm\<close> is a key: \<open>k = nrm\<close>; (2) the query has at least one token of length
  3 or more, and among the keys that contain all such tokens one has a ratio to the query of
  at least 0.60: \<open>k\<close> is such a key of the highest ratio; (3) among the keys that contain
  the query or are contained in it one has a ratio of at least 0.70: \<open>k\<close> is such a key of
  the highest ratio; (4) a key has a ratio (with the key as the first sequence) of at least
  0.70: \<open>k\<close> is a key of the highest ratio; and when none succeeds the result is \<open>None\<close>.
  Step (4) is \<open>difflib.get_close_matches\<close>, whose two quick scores the hypothesis takes to
  be upper bounds of the ratio on the keys of the table, as the library documents them.
\<close>

theorem resolution_order:
  fixes m :: matcher and lookup :: "'v dict" and name :: string
  defines "nrm \<equiv> normalize_name_for_match name"
    and "keys \<equiv> dict_keys lookup"
  defines "strict \<equiv> strict_candidates keys (query_tokens nrm)"
    and "partial \<equiv> partial_candidates keys nrm"
  defines "accept2 \<equiv> query_tokens nrm \<noteq> [] \<and> (\<exists>k\<in>set strict. 6 / 10 \<le> sm_ratio m nrm k)"
    and "accept3 \<equiv> (\<exists>k\<in>set partial. 7 / 10 \<le> sm_ratio m nrm k)"
    and "accept4 \<equiv> (\<exists>k\<in>set keys. 7 / 10 \<le> sm_ratio m k nrm)"
  assumes ub: "\<forall>k\<in>set keys. sm_ratio m k nrm \<le> sm_quick_ratio m k nrm
      \<and> sm_ratio m k nrm \<le> sm_real_quick_ratio m k nrm"
  shows "(name = [] \<or> lookup = [] \<longrightarrow> find_item_row_by_name m lookup name = None)
   \<and> (name \<noteq> [] \<and> lookup \<noteq> [] \<longrightarrow>
       (nrm \<in> set keys \<longrightarrow> find_item_row_by_name m lookup name = map_of lookup nrm)
     \<and> (nrm \<notin> set keys \<and> accept2 \<longrightarrow>
          (\<exists>k. highest (sm_ratio m nrm) strict k \<and> 6 / 10 \<le> sm_ratio m nrm k
             \<and> find_item_row_by_name m lookup name = map_of lookup k))
     \<and> (nrm \<notin> set keys \<and> \<not> accept2 \<and> accept3 \<longrightarrow>
          (\<exists>k. highest (sm_ratio m nrm) partial k \<and> 7 / 10 \<le> sm_ratio m nrm k
             \<and> find_item_row_by_name m lookup name = map_of lookup k))
     \<and> (nrm \<notin> set keys \<and> \<not> accept2 \<and> \<not> accept3 \<and> accept4 \<longrightarrow>
          (\<exists>k. highest (\<lambda>k. sm_ratio m k nrm) keys k \<and> 7 / 10 \<le> sm_ratio m k nrm
             \<and> find_item_row_by_name m lookup name = map_of lookup k))
     \<and> (nrm \<notin> set keys \<and> \<not> accept2 \<and> \<not> accept3 \<and> \<not> accept4 \<longrightarrow>
          find_item_row_by_name m lookup name = None))
   \<and> set strict = {k \<in> set keys. \<forall>t\<in>set (query_tokens nrm). \<exists>p s. k = p @ t @ s}
   \<and> set partial = {k \<in> set keys. (\<exists>p s. k = p @ nrm @ s) \<or> (\<exists>p s. nrm = p @ k @ s)}
   \<and> (\<forall>k\<in>set keys. map_of lookup k \<noteq> None)"
proof -
  let ?res = "find_item_row_by_name m lookup name"
  let ?k2 = "py_max (sm_ratio m nrm) strict"
  let ?k3 = "py_max (sm_ratio m nrm) partial"
  have a2: "accept2 \<longleftrightarrow> query_tokens nrm \<noteq> [] \<and> strict \<noteq> [] \<and> 6 / 10 \<le> sm_ratio m nrm ?k2"
    unfolding accept2_def using accept_iff [of strict "6 / 10" "sm_ratio m nrm"] by blast
  have a3: "accept3 \<longleftrightarrow> partial \<noteq> [] \<and> 7 / 10 \<le> sm_ratio m nrm ?k3"
    unfolding accept3_def using accept_iff [of partial "7 / 10" "sm_ratio m nrm"] by blast
  note cm = close_matches_one [OF ub, of "7 / 10"]
  have a4: "accept4 \<longleftrightarrow> get_close_matches m nrm keys 1 (7 / 10) \<noteq> []"
    unfolding accept4_def using cm by blast
  have empty: "name = [] \<or> lookup = [] \<Longrightarrow> ?res = None"
    by (auto simp: find_item_row_by_name_def)
  have unfold: "?res =
      (if nrm \<in> set keys then map_of lookup nrm
       else if accept2 then map_of lookup ?k2
       else if accept3 then map_of lookup ?k3
       else (case get_close_matches m nrm keys 1 (7 / 10) of [] \<Rightarrow> None
             | best # _ \<Rightarrow> map_of lookup best))"
    if "name \<noteq> [] \<and> lookup \<noteq> []"
    using that unfolding a2 a3
    by (simp add: find_item_row_by_name_def Let_def nrm_def keys_def strict_def partial_def)
  have s1: "nrm \<in> set keys \<Longrightarrow> ?res = map_of lookup nrm" if "name \<noteq> [] \<and> lookup \<noteq> []"
    using unfold [OF that] by simp
  have s2: "\<exists>k. highest (sm_ratio m nrm) strict k \<and> 6 / 10 \<le> sm_ratio m nrm k \<and> ?res = map_of lookup k"
    if "name \<noteq> [] \<and> lookup \<noteq> []" "nrm \<notin> set keys" "accept2"
  proof -
    from that a2 have ne: "strict \<noteq> []" and r: "6 / 10 \<le> sm_ratio m nrm ?k2" by simp_all
    from py_max_highest [OF ne] have "highest (sm_ratio m nrm) strict ?k2" .
    moreover from unfold [OF that(1)] that have "?res = map_of lookup ?k2" by simp
    ultimately show ?thesis using r by blast
  qed
  have s3: "\<exists>k. highest (sm_ratio m nrm) partial k \<and> 7 / 10 \<le> sm_ratio m nrm k \<and> ?res = map_of lookup k"
    if "name \<noteq> [] \<and> lookup \<noteq> []" "nrm \<notin> set keys" "\<not> accept2" "accept3"
  proof -
    from that a3 have ne: "partial \<noteq> []" and r: "7 / 10 \<le> sm_ratio m nrm ?k3" by simp_all
    from py_max_highest [OF ne] have "highest (sm_ratio m nrm) partial ?k3" .
    moreover from unfold [OF that(1)] that have "?res = map_of lookup ?k3" by simp
    ultimately show ?thesis using r by blast
  qed
  have s4: "\<exists>k. highest (\<lambda>k. sm_ratio m k nrm) keys k \<and> 7 / 10 \<le> sm_ratio m k nrm \<and> ?res = map_of lookup k"
    if "name \<noteq> [] \<and> lookup \<noteq> []" "nrm \<notin> set keys" "\<not> accept2" "\<not> accept3" "accept4"
  proof -
    from that a4 obtain k rest where g: "get_close_matches m nrm keys 1 (7 / 10) = k # rest"
      by (cases "get_close_matches m nrm keys 1 (7 / 10)") auto
    with cm have "7 / 10 \<le> sm_ratio m k nrm" "highest (\<lambda>x. sm_ratio m x nrm) keys k" by blast+
    moreover from unfold [OF that(1)] that g have "?res = map_of lookup k" by simp
    ultimately show ?thesis by blast
  qed
  have s5: "?res = None"
    if "name \<noteq> [] \<and> lookup \<noteq> []" "nrm \<notin> set keys" "\<not> accept2" "\<not> accept3" "\<not> accept4"
    using unfold [OF that(1)] that a4 by simp
  have k: "\<forall>k\<in>set keys. map_of lookup k \<noteq> None"
    using dict_keys_map_of [of _ lookup] by (simp add: keys_def)
  show ?thesis
    using empty s1 s2 s3 s4 s5 k
      strict_candidates_set [of keys "query_tokens nrm"] partial_candidates_set [of keys nrm]
    unfolding strict_def [symmetric] partial_def [symmetric]
    by blast
qed

theorem resolution_order_witness:
  "find_item_row_by_name difflib (ITEM_LOOKUP sample_db) ''Hatch Key''
     = Some [(''Name'', ''Raider Hatch Key''), (''Verdict'', ''KEEP'')]
   \<and> (\<exists>k. highest (sm_ratio difflib (normalize_name_for_match ''Hatch Key''))
            (strict_candidates (dict_keys (ITEM_LOOKUP sample_db))
               (query_tokens (normalize_name_for_match ''Hatch Key''))) k
          \<and> 6 / 10 \<le> sm_ratio difflib (normalize_name_for_match ''Hatch Key'') k
          \<and> find_item_row_by_name difflib (ITEM_LOOKUP sample_db) ''Hatch Key''
              = map_of (ITEM_LOOKUP sample_db) k)"
proof -
  let ?L = "ITEM_LOOKUP sample_db"
  let ?n = "normalize_name_for_match ''Hatch Key''"
  have ub: "\<forall>k\<in>set (dict_keys ?L).
     sm_ratio difflib k ?n \<le> sm_quick_ratio difflib k ?n
     \<and> sm_ratio difflib k ?n \<le> sm_real_quick_ratio difflib k ?n"
    by code_simp
  have pre: "''Hatch Key'' \<noteq> [] \<and> ?L \<noteq> []"
    by code_simp
  have nin: "?n \<notin> set (dict_keys ?L)"
    by code_simp
  have acc: "query_tokens ?n \<noteq> []
      \<and> (\<exists>k\<in>set (strict_candidates (dict_keys ?L) (query_tokens ?n)). 6 / 10 \<le> sm_ratio difflib ?n k)"
    by code_simp
  have r: "find_item_row_by_name difflib ?L ''Hatch Key''
     = Some [(''Name'', ''Raider Hatch Key''), (''Verdict'', ''KEEP'')]"
    by code_simp
  from resolution_order [OF ub] pre nin acc
  have "\<exists>k. highest (sm_ratio difflib ?n) (strict_candidates (dict_keys ?L) (query_tokens ?n)) k
          \<and> 6 / 10 \<le> sm_ratio difflib ?n k
          \<and> find_item_row_by_name difflib ?L ''Hatch Key'' = map_of ?L k"
    by blast
  with r show ?thesis by blast
qed

text \<open>
  The claim as the specification states it has no condition on step (2).  The query \<open>Ro\<close>
  has no token of length 3 or more, so every key contains all its tokens, and the key of the
  highest ratio, \<open>rope\<close> at 2/3, passes 0.60: the claim resolves \<open>Ro\<close> to the row of
  \<open>Rope\<close>.  The code skips the step when there is no token, steps (3) and (4) ask for 0.70,
  and the result is \<open>None\<close>.
\<close>

theorem resolution_order_counterexample:
  "find_item_row_by_name difflib (ITEM_LOOKUP sample_db) ''Ro'' = None
   \<and> normalize_name_for_match ''Ro'' = ''ro''
   \<and> map_of (ITEM_LOOKUP sample_db) ''ro'' = None
   \<and> query_tokens ''ro'' = []
   \<and> strict_candidates (dict_keys (ITEM_LOOKUP sample_db)) (query_tokens ''ro'')
       = [''raider hatch key'', ''oil'', ''rope'']
   \<and> py_max (sm_ratio difflib ''ro'') [''raider hatch key'', ''oil'', ''rope''] = ''rope''
   \<and> sm_ratio difflib ''ro'' ''rope'' = 2 / 3
   \<and> map_of (ITEM_LOOKUP sample_db) ''rope'' = Some [(''Name'', ''Rope''), (''Verdict'', ''SELL'')]"
  by code_simp

end
